theory Spec2Isabelle
  imports
    Main
    "HOL-Library.Sublist"
    "HOL-Library.Char_ord"
    "HOL-Library.List_Lexorder"
    "HOL-Library.Product_Lexorder"
    "HOL-Library.Multiset"
begin

section \<open>College appointment system: the availability and appointment routes\<close>

text \<open>
  The two route files of the repository (the availability router and the appointments
  router) are embedded as functions over an explicit database state. Every handler takes
  the database, the authenticated caller (\<open>req.user._id\<close>, after the \<open>auth\<close> and
  \<open>authorize\<close> middleware have let the request through), the request's parameters and,
  where the handler evaluates \<open>new Date()\<close>, the current moment; it returns the HTTP
  response together with the database after the call.

  Moments in time are JavaScript \<open>Date\<close> values: milliseconds since the epoch, an
  \<open>int\<close>. Object ids are natural numbers; the database carries the next unused id,
  so that an id is never handed out twice, as with MongoDB's ObjectIds.
\<close>

subsection \<open>Documents and the database\<close>

type_synonym oid = nat

datatype role = Student | Professor

record user =
  user_id :: oid
  user_role :: role

record availability =
  av_id :: oid
  av_professor :: oid
  av_date :: int
  av_startTime :: string
  av_endTime :: string
  av_isBooked :: bool
  av_bookedBy :: "oid option"

datatype status = Pending | Confirmed | Cancelled | Completed

record appointment =
  ap_id :: oid
  ap_student :: oid
  ap_professor :: oid
  ap_availability :: oid
  ap_date :: int
  ap_startTime :: string
  ap_endTime :: string
  ap_notes :: string
  ap_status :: status

record db =
  users :: "user list"
  availabilities :: "availability list"
  appointments :: "appointment list"
  next_oid :: oid

subsection \<open>Responses\<close>

text \<open>
  A response is \<open>Reply code message data\<close> for \<open>success: true\<close>, \<open>Refusal code message\<close>
  for \<open>success: false\<close>, and \<open>Invalid errors\<close> for the 400 answer
  \<open>'Validation errors'\<close> that carries the validators' messages.
\<close>

datatype 'a response =
    Reply nat "string option" 'a
  | Refusal nat string
  | Invalid "string list"

fun is_success :: "'a response \<Rightarrow> bool" where
  "is_success (Reply _ _ _) = True"
| "is_success _ = False"

subsection \<open>Queries of the document store\<close>

definition findOne :: "('a \<Rightarrow> bool) \<Rightarrow> 'a list \<Rightarrow> 'a option" where
  "findOne P xs = find P xs"

definition findUserById :: "db \<Rightarrow> oid \<Rightarrow> user option" where
  "findUserById d i = findOne (\<lambda>u. user_id u = i) (users d)"

definition findAvailabilityById :: "db \<Rightarrow> oid \<Rightarrow> availability option" where
  "findAvailabilityById d i = findOne (\<lambda>s. av_id s = i) (availabilities d)"

text \<open>
  \<open>doc.save()\<close> of a loaded document writes the modified paths of the document with
  that \<open>_id\<close>. The routes make three such writes: a slot is marked booked by a
  student, a slot is freed, and the status of an appointment is set.
\<close>

definition markBooked :: "oid \<Rightarrow> oid \<Rightarrow> db \<Rightarrow> db" where
  "markBooked i student d =
     d\<lparr>availabilities :=
          map (\<lambda>s. if av_id s = i then s\<lparr>av_isBooked := True, av_bookedBy := Some student\<rparr> else s)
            (availabilities d)\<rparr>"

definition freeSlot :: "oid \<Rightarrow> db \<Rightarrow> db" where
  "freeSlot i d =
     d\<lparr>availabilities :=
          map (\<lambda>s. if av_id s = i then s\<lparr>av_isBooked := False, av_bookedBy := None\<rparr> else s)
            (availabilities d)\<rparr>"

definition setStatus :: "oid \<Rightarrow> status \<Rightarrow> db \<Rightarrow> db" where
  "setStatus i st d =
     d\<lparr>appointments :=
          map (\<lambda>a. if ap_id a = i then a\<lparr>ap_status := st\<rparr> else a) (appointments d)\<rparr>"

subsection \<open>Times of day\<close>

text \<open>
  The validator of \<open>startTime\<close> and \<open>endTime\<close> is the regular expression
  \<^verbatim>\<open>/^([0-1]?[0-9]|2[0-3]):[0-5][0-9]$/\<close>. The hour group is one character
  (\<open>[0-9]\<close>, the optional \<open>[0-1]\<close> absent) or two (\<open>[0-1][0-9]\<close> or
  \<open>2[0-3]\<close>), so a matching string has four or five characters.
\<close>

definition is_0_9 :: "char \<Rightarrow> bool" where
  "is_0_9 c = (c \<in> set ''0123456789'')"

definition is_0_5 :: "char \<Rightarrow> bool" where
  "is_0_5 c = (c \<in> set ''012345'')"

definition is_0_3 :: "char \<Rightarrow> bool" where
  "is_0_3 c = (c \<in> set ''0123'')"

definition is_0_1 :: "char \<Rightarrow> bool" where
  "is_0_1 c = (c \<in> set ''01'')"

fun matches_time :: "string \<Rightarrow> bool" where
  "matches_time [h, c, m1, m2] =
     (is_0_9 h \<and> c = CHR '':'' \<and> is_0_5 m1 \<and> is_0_9 m2)"
| "matches_time [h1, h2, c, m1, m2] =
     (((is_0_1 h1 \<and> is_0_9 h2) \<or> (h1 = CHR ''2'' \<and> is_0_3 h2))
      \<and> c = CHR '':'' \<and> is_0_5 m1 \<and> is_0_9 m2)"
| "matches_time _ = False"

definition digit_val :: "char \<Rightarrow> nat" where
  "digit_val c = of_char c - 48"

text \<open>The time of day a matching string denotes, in minutes since midnight.\<close>

fun time_of_day :: "string \<Rightarrow> nat" where
  "time_of_day [h, c, m1, m2] = digit_val h * 60 + (digit_val m1 * 10 + digit_val m2)"
| "time_of_day [h1, h2, c, m1, m2] =
     (digit_val h1 * 10 + digit_val h2) * 60 + (digit_val m1 * 10 + digit_val m2)"
| "time_of_day _ = 0"

text \<open>
  The format the specification names: \<open>HH:MM\<close>, a two-digit hour 00 to 23 and a
  two-digit minute 00 to 59. This definition follows the specification's words; it is
  compared with \<open>matches_time\<close> below.
\<close>

definition spec_HH_MM :: "string \<Rightarrow> bool" where
  "spec_HH_MM s =
     (case s of
        [h1, h2, c, m1, m2] \<Rightarrow>
          is_0_9 h1 \<and> is_0_9 h2 \<and> c = CHR '':'' \<and> is_0_9 m1 \<and> is_0_9 m2
          \<and> digit_val h1 * 10 + digit_val h2 \<le> 23 \<and> digit_val m1 * 10 + digit_val m2 \<le> 59
      | _ \<Rightarrow> False)"

text \<open>The same with the leading digit of the hour left out: \<open>H:MM\<close>, hour 0 to 9.\<close>

definition spec_H_MM :: "string \<Rightarrow> bool" where
  "spec_H_MM s =
     (case s of
        [h, c, m1, m2] \<Rightarrow>
          is_0_9 h \<and> c = CHR '':'' \<and> is_0_9 m1 \<and> is_0_9 m2
          \<and> digit_val m1 * 10 + digit_val m2 \<le> 59
      | _ \<Rightarrow> False)"

subsection \<open>Creating a slot: \<open>POST /\<close> of the availability router\<close>

text \<open>
  The \<open>date\<close> of the request body is a string that only \<open>isISO8601()\<close> and
  \<open>new Date(date)\<close> look at, both library functions. The model takes their outcome:
  \<open>NotISO8601\<close> when the validator refuses the string (or the field is missing),
  \<open>InvalidDate\<close> when the validator accepts it but \<open>new Date\<close> yields an invalid date
  (the query then fails to cast it), and \<open>ValidDate t\<close> when \<open>new Date(date)\<close> is the
  moment \<open>t\<close>.
\<close>

datatype body_date = NotISO8601 | InvalidDate | ValidDate int

record slot_request =
  sr_date :: body_date
  sr_startTime :: string
  sr_endTime :: string

definition slot_validators :: "slot_request \<Rightarrow> string list" where
  "slot_validators r =
     (if sr_date r = NotISO8601 then [''Please provide a valid date in ISO format''] else [])
     @ (if matches_time (sr_startTime r) then [] else [''Start time must be in HH:MM format''])
     @ (if matches_time (sr_endTime r) then [] else [''End time must be in HH:MM format''])"

text \<open>
  Modelled from the spec: the defaults of the Availability schema (\<open>models/Availability\<close>
  is not among the sources). The specification gives a new slot \<open>isBooked = false\<close> and
  no booking student; the route passes the other fields.
\<close>

definition new_availability :: "oid \<Rightarrow> oid \<Rightarrow> int \<Rightarrow> string \<Rightarrow> string \<Rightarrow> availability" where
  "new_availability i p t s e =
     \<lparr>av_id = i, av_professor = p, av_date = t, av_startTime = s, av_endTime = e,
      av_isBooked = False, av_bookedBy = None\<rparr>"

text \<open>
  Modelled from the spec: the validation the Availability model runs when a slot is saved
  (\<open>models/Availability\<close> is not among the sources). The specification requires
  \<open>endTime\<close> strictly after \<open>startTime\<close>, compared as times of day and not as raw
  strings. The route's catch block shows how the model reports a violation: it throws an
  error whose message includes \<open>'End time must be after start time'\<close>. The result is
  the message of the error thrown, or \<open>None\<close> when the save goes through.
\<close>

definition availability_pre_save :: "availability \<Rightarrow> string option" where
  "availability_pre_save s =
     (if time_of_day (av_startTime s) < time_of_day (av_endTime s) then None
      else Some ''End time must be after start time'')"

text \<open>\<open>String.prototype.includes\<close>: the second string occurs in the first.\<close>

fun str_includes :: "string \<Rightarrow> string \<Rightarrow> bool" where
  "str_includes [] sub = (sub = [])"
| "str_includes (c # cs) sub = (prefix sub (c # cs) \<or> str_includes cs sub)"

text \<open>
  The catch block of the route, applied to the message of the error caught. Besides the
  model's validation, the query throws when it cannot cast an invalid date; the message
  of that error does not include the phrase the catch block looks for.
\<close>

definition create_catch :: "string \<Rightarrow> availability response" where
  "create_catch msg =
     (if str_includes msg ''End time must be after start time'' then Refusal 400 msg
      else Refusal 500 ''Error creating availability slot'')"

definition createSlot :: "db \<Rightarrow> oid \<Rightarrow> slot_request \<Rightarrow> availability response \<times> db" where
  "createSlot d caller r =
     (if slot_validators r \<noteq> [] then (Invalid (slot_validators r), d)
      else case sr_date r of
        ValidDate t \<Rightarrow>
          (case findOne (\<lambda>s. av_professor s = caller \<and> av_date s = t
                             \<and> av_startTime s = sr_startTime r \<and> av_endTime s = sr_endTime r)
                  (availabilities d) of
             Some existingSlot \<Rightarrow> (Refusal 400 ''This time slot already exists'', d)
           | None \<Rightarrow>
               (let a = new_availability (next_oid d) caller t (sr_startTime r) (sr_endTime r)
                in case availability_pre_save a of
                     Some msg \<Rightarrow> (create_catch msg, d)
                   | None \<Rightarrow>
                       (Reply 201 (Some ''Availability slot created successfully'') a,
                        d\<lparr>availabilities := availabilities d @ [a], next_oid := Suc (next_oid d)\<rparr>)))
      | _ \<Rightarrow> (create_catch ''Cast to date failed'', d))"

subsection \<open>Listing and deleting slots\<close>

text \<open>
  The optional \<open>date\<close> of the query string: absent (or empty, which \<open>if (date)\<close>
  treats alike), a string that \<open>new Date\<close> cannot read (the query then fails to cast
  it), or the moment \<open>new Date(date)\<close>.
\<close>

datatype query_date = NoDate | UnreadableDate | QueryDate int

text \<open>
  The query object starts as \<open>{professor, isBooked: false, date: {$gte: new Date()}}\<close>;
  a supplied \<open>date\<close> is assigned to the same key \<open>date\<close> and so replaces the lower
  bound. The result is sorted by \<open>date\<close>, then \<open>startTime\<close> (a string), both
  ascending; the model leaves slots that agree in both in the order of the store.
\<close>

definition available_query :: "oid \<Rightarrow> query_date \<Rightarrow> int \<Rightarrow> availability \<Rightarrow> bool" where
  "available_query professorId qd now s =
     (av_professor s = professorId \<and> \<not> av_isBooked s
      \<and> (case qd of QueryDate t \<Rightarrow> av_date s = t | _ \<Rightarrow> now \<le> av_date s))"

definition sort_slots :: "availability list \<Rightarrow> availability list" where
  "sort_slots xs = sort_key (\<lambda>s. (av_date s, av_startTime s)) xs"

text \<open>
  \<open>professorId\<close> is the raw string of the URL; no validator looks at it. It is
  \<open>None\<close> when the string is not an ObjectId: \<open>User.findById\<close> then fails to cast
  it, and the catch block answers 500.
\<close>

definition listAvailableSlots ::
  "db \<Rightarrow> oid option \<Rightarrow> query_date \<Rightarrow> int \<Rightarrow> availability list response" where
  "listAvailableSlots d professorId qd now =
     (case professorId of
        None \<Rightarrow> Refusal 500 ''Error fetching professor availability''
      | Some pid \<Rightarrow>
          (case findUserById d pid of
             None \<Rightarrow> Refusal 404 ''Professor not found''
           | Some professor \<Rightarrow>
               if user_role professor \<noteq> Professor then Refusal 404 ''Professor not found''
               else if qd = UnreadableDate
               then Refusal 500 ''Error fetching professor availability''
               else Reply 200 None
                      (sort_slots (filter (available_query pid qd now) (availabilities d)))))"

definition deleteSlot :: "db \<Rightarrow> oid \<Rightarrow> oid \<Rightarrow> unit response \<times> db" where
  "deleteSlot d caller slotId =
     (case findOne (\<lambda>s. av_id s = slotId \<and> av_professor s = caller) (availabilities d) of
        None \<Rightarrow> (Refusal 404 ''Availability slot not found'', d)
      | Some a \<Rightarrow>
          if av_isBooked a
          then (Refusal 400 ''Cannot delete booked slot. Cancel the appointment first.'', d)
          else (Reply 200 (Some ''Availability slot deleted successfully'') (),
                d\<lparr>availabilities := filter (\<lambda>s. av_id s \<noteq> slotId) (availabilities d)\<rparr>))"

subsection \<open>Booking: \<open>POST /book\<close> of the appointments router\<close>

text \<open>
  The request body: \<open>availabilityId\<close> is \<open>None\<close> when the field is not a MongoId
  (the validator \<open>isMongoId()\<close> refuses it); \<open>notes\<close> is optional, and is trimmed
  before its length is checked and before the handler reads it.
\<close>

record book_request =
  br_availabilityId :: "oid option"
  br_notes :: "string option"

definition is_space :: "char \<Rightarrow> bool" where
  "is_space c = ((of_char c :: nat) \<in> {9, 10, 11, 12, 13, 32, 160})"

definition trim :: "string \<Rightarrow> string" where
  "trim s = rev (dropWhile is_space (rev (dropWhile is_space s)))"

definition book_validators :: "book_request \<Rightarrow> string list" where
  "book_validators r =
     (if br_availabilityId r = None then [''Please provide a valid availability ID''] else [])
     @ (case br_notes r of
          None \<Rightarrow> []
        | Some n \<Rightarrow>
            if length (trim n) \<le> 500 then [] else [''Notes cannot exceed 500 characters''])"

definition sanitized_notes :: "book_request \<Rightarrow> string" where
  "sanitized_notes r = (case br_notes r of None \<Rightarrow> [] | Some n \<Rightarrow> trim n)"

text \<open>
  The handler has two parts, separated by its \<open>await\<close>s. The first part reads: it loads
  the slot (with its professor populated, \<open>None\<close> when that user does not exist) and
  decides from what it has read; \<open>new Date()\<close> is the moment \<open>now\<close>. It either answers
  or hands the id of the request and the loaded slot to the second part.
\<close>

definition bookSlot_read ::
  "db \<Rightarrow> book_request \<Rightarrow> int
     \<Rightarrow> appointment response + (oid \<times> availability \<times> user option)" where
  "bookSlot_read d r now =
     (if book_validators r \<noteq> [] then Inl (Invalid (book_validators r))
      else case br_availabilityId r of
        None \<Rightarrow> Inl (Invalid (book_validators r))
      | Some availabilityId \<Rightarrow>
          (case findAvailabilityById d availabilityId of
             None \<Rightarrow> Inl (Refusal 404 ''Availability slot not found'')
           | Some a \<Rightarrow>
               if av_isBooked a then Inl (Refusal 400 ''This time slot is already booked'')
               else if av_date a < now then Inl (Refusal 400 ''Cannot book past time slots'')
               else Inr (availabilityId, a, findUserById d (av_professor a))))"

text \<open>
  Modelled from the spec: the schema of the Appointment model (\<open>models/Appointment\<close> is
  not among the sources). The specification creates an appointment with
  \<open>status = confirmed\<close>; the handler passes every other field.
\<close>

definition new_appointment ::
  "oid \<Rightarrow> oid \<Rightarrow> oid \<Rightarrow> oid \<Rightarrow> availability \<Rightarrow> string \<Rightarrow> appointment" where
  "new_appointment i student professor availabilityId a notes =
     \<lparr>ap_id = i, ap_student = student, ap_professor = professor,
      ap_availability = availabilityId, ap_date = av_date a,
      ap_startTime = av_startTime a, ap_endTime = av_endTime a,
      ap_notes = notes, ap_status = Confirmed\<rparr>"

text \<open>
  The second part writes: it saves the new appointment, then sets \<open>isBooked\<close> and
  \<open>bookedBy\<close> on the loaded slot and saves it. Reading \<open>availability.professor._id\<close>
  throws when the populated professor is null; the catch block answers 500, before
  anything is written.
\<close>

definition bookSlot_write ::
  "db \<Rightarrow> oid \<Rightarrow> book_request \<Rightarrow> oid \<times> availability \<times> user option
     \<Rightarrow> appointment response \<times> db" where
  "bookSlot_write d caller r loaded =
     (case loaded of
        (availabilityId, a, None) \<Rightarrow> (Refusal 500 ''Error booking appointment'', d)
      | (availabilityId, a, Some professor) \<Rightarrow>
          (let appointment = new_appointment (next_oid d) caller (user_id professor)
                               availabilityId a (sanitized_notes r);
               d1 = d\<lparr>appointments := appointments d @ [appointment],
                      next_oid := Suc (next_oid d)\<rparr>;
               d2 = markBooked (av_id a) caller d1
           in (Reply 201 (Some ''Appointment booked successfully'') appointment, d2)))"

definition bookSlot :: "db \<Rightarrow> oid \<Rightarrow> book_request \<Rightarrow> int \<Rightarrow> appointment response \<times> db" where
  "bookSlot d caller r now =
     (case bookSlot_read d r now of
        Inl answer \<Rightarrow> (answer, d)
      | Inr loaded \<Rightarrow> bookSlot_write d caller r loaded)"

subsection \<open>Cancelling: \<open>PUT /cancel/:appointmentId\<close>\<close>

text \<open>
  The appointment is loaded with its \<open>availability\<close> populated: the slot document, or
  null when no slot has that id. After the status is saved the handler reads
  \<open>appointment.availability._id\<close>, which throws on null; the catch block then answers
  500, the saved status staying as it is.
\<close>

definition cancelAppointment :: "db \<Rightarrow> oid \<Rightarrow> oid \<Rightarrow> appointment response \<times> db" where
  "cancelAppointment d caller appointmentId =
     (case findOne (\<lambda>a. ap_id a = appointmentId \<and> ap_professor a = caller) (appointments d) of
        None \<Rightarrow> (Refusal 404 ''Appointment not found'', d)
      | Some appointment \<Rightarrow>
          if ap_status appointment = Cancelled
          then (Refusal 400 ''Appointment is already cancelled'', d)
          else
            (let populated = findAvailabilityById d (ap_availability appointment);
                 d1 = setStatus (ap_id appointment) Cancelled d
             in case populated of
                  None \<Rightarrow> (Refusal 500 ''Error cancelling appointment'', d1)
                | Some slot \<Rightarrow>
                    (Reply 200 (Some ''Appointment cancelled successfully'')
                       (appointment\<lparr>ap_status := Cancelled\<rparr>),
                     case findAvailabilityById d1 (av_id slot) of
                       None \<Rightarrow> d1
                     | Some availability \<Rightarrow> freeSlot (av_id availability) d1)))"

subsection \<open>Setting a status: \<open>PUT /:appointmentId/status\<close>\<close>

definition status_of_string :: "string \<Rightarrow> status option" where
  "status_of_string s =
     (if s = ''pending'' then Some Pending
      else if s = ''confirmed'' then Some Confirmed
      else if s = ''cancelled'' then Some Cancelled
      else if s = ''completed'' then Some Completed
      else None)"

definition updateAppointmentStatus ::
  "db \<Rightarrow> oid \<Rightarrow> oid \<Rightarrow> string \<Rightarrow> appointment response \<times> db" where
  "updateAppointmentStatus d caller appointmentId body_status =
     (case status_of_string body_status of
        None \<Rightarrow> (Invalid [''Invalid status''], d)
      | Some st \<Rightarrow>
          (case findOne (\<lambda>a. ap_id a = appointmentId \<and> ap_professor a = caller)
                  (appointments d) of
             None \<Rightarrow> (Refusal 404 ''Appointment not found'', d)
           | Some appointment \<Rightarrow>
               (let d1 = setStatus (ap_id appointment) st d;
                    d2 = (if st = Cancelled
                          then (case findAvailabilityById d1 (ap_availability appointment) of
                                  None \<Rightarrow> d1
                                | Some availability \<Rightarrow> freeSlot (av_id availability) d1)
                          else d1)
                in (Reply 200 (Some ''Appointment status updated successfully'')
                      (appointment\<lparr>ap_status := st\<rparr>), d2))))"

subsection \<open>Sequences of calls and the cross-store invariant\<close>

datatype call =
    BookSlot oid book_request int
  | CancelAppointment oid oid
  | UpdateAppointmentStatus oid oid string

fun perform :: "db \<Rightarrow> call \<Rightarrow> db" where
  "perform d (BookSlot caller r now) = snd (bookSlot d caller r now)"
| "perform d (CancelAppointment caller i) = snd (cancelAppointment d caller i)"
| "perform d (UpdateAppointmentStatus caller i s) = snd (updateAppointmentStatus d caller i s)"

definition run :: "db \<Rightarrow> call list \<Rightarrow> db" where
  "run d cs = foldl perform d cs"

text \<open>
  The relationship invariant of the specification: a slot is booked exactly when an
  appointment that is not cancelled refers to it.
\<close>

definition live :: "appointment \<Rightarrow> bool" where
  "live a = (ap_status a \<noteq> Cancelled)"

definition slot_consistent :: "db \<Rightarrow> availability \<Rightarrow> bool" where
  "slot_consistent d s =
     (av_isBooked s = (\<exists>a \<in> set (appointments d). ap_availability a = av_id s \<and> live a))"

definition consistent :: "db \<Rightarrow> bool" where
  "consistent d = (\<forall>s \<in> set (availabilities d). slot_consistent d s)"

text \<open>
  A slot id is engaged when an appointment that is not cancelled refers to it.
\<close>

definition engaged :: "db \<Rightarrow> oid \<Rightarrow> bool" where
  "engaged d v = (\<exists>a \<in> set (appointments d). ap_availability a = v \<and> live a)"

text \<open>
  Two facts about the appointment store that the routes keep and on which the
  relationship invariant rests: at most one appointment that is not cancelled refers to
  a slot, and the appointment ids are distinct and below the next unused id.
\<close>

definition single_booking :: "db \<Rightarrow> bool" where
  "single_booking d =
     (\<forall>a \<in> set (appointments d). \<forall>b \<in> set (appointments d).
        live a \<and> live b \<and> ap_availability a = ap_availability b \<longrightarrow> ap_id a = ap_id b)"

definition fresh_ids :: "db \<Rightarrow> bool" where
  "fresh_ids d =
     (distinct (map ap_id (appointments d))
      \<and> (\<forall>i \<in> set (map ap_id (appointments d)). i < next_oid d))"

definition invariant :: "db \<Rightarrow> bool" where
  "invariant d = (fresh_ids d \<and> single_booking d \<and> consistent d)"

text \<open>
  A call spares cancelled appointments when it is not a status update of an appointment
  that is already cancelled; a sequence of calls is admissible when each call does so in
  the state it meets.
\<close>

definition spares_cancelled :: "db \<Rightarrow> call \<Rightarrow> bool" where
  "spares_cancelled d c =
     (case c of
        UpdateAppointmentStatus caller i s \<Rightarrow>
          (case findOne (\<lambda>a. ap_id a = i \<and> ap_professor a = caller) (appointments d) of
             None \<Rightarrow> True
           | Some a \<Rightarrow> live a)
      | _ \<Rightarrow> True)"

fun admissible :: "db \<Rightarrow> call list \<Rightarrow> bool" where
  "admissible d [] = True"
| "admissible d (c # cs) = (spares_cancelled d c \<and> admissible (perform d c) cs)"

fun is_book_or_cancel :: "call \<Rightarrow> bool" where
  "is_book_or_cancel (UpdateAppointmentStatus caller i s) = False"
| "is_book_or_cancel c = True"

subsection \<open>The specification's readings, and example states\<close>

text \<open>
  The moment a slot starts, as the specification reads "date/time": the stored date plus
  the start time of day. This definition follows the specification's words; the
  handlers never compute it.
\<close>

definition spec_start_moment :: "availability \<Rightarrow> int" where
  "spec_start_moment a = av_date a + int (time_of_day (av_startTime a)) * 60000"

text \<open>
  The listing as the specification words it: unbooked slots of the professor dated
  today or later, today being the day (of 86400000 milliseconds) that contains the
  current moment, narrowed to one date when the filter is given. These definitions
  follow the specification's words; they are compared with \<open>available_query\<close> below.
\<close>

definition spec_start_of_day :: "int \<Rightarrow> int" where
  "spec_start_of_day now = now - now mod 86400000"

definition spec_available :: "oid \<Rightarrow> query_date \<Rightarrow> int \<Rightarrow> availability \<Rightarrow> bool" where
  "spec_available professorId qd now s =
     (av_professor s = professorId \<and> \<not> av_isBooked s \<and> spec_start_of_day now \<le> av_date s
      \<and> (case qd of QueryDate t \<Rightarrow> av_date s = t | _ \<Rightarrow> True))"

text \<open>
  A department with one professor (id 1) and two students (ids 2 and 3). The professor
  has published two slots on the day that starts at moment 86400000: 10:00 to 11:00 and
  14:00 to 15:00.
\<close>

definition campus :: db where
  "campus =
     \<lparr>users = [\<lparr>user_id = 1, user_role = Professor\<rparr>,
               \<lparr>user_id = 2, user_role = Student\<rparr>,
               \<lparr>user_id = 3, user_role = Student\<rparr>],
      availabilities = [new_availability 10 1 86400000 ''10:00'' ''11:00'',
                        new_availability 11 1 86400000 ''14:00'' ''15:00''],
      appointments = [],
      next_oid = 20\<rparr>"

definition request10 :: book_request where
  "request10 = \<lparr>br_availabilityId = Some 10, br_notes = Some '' final project ''\<rparr>"

text \<open>A request for the same slot whose notes have 501 characters.\<close>

definition long_request :: book_request where
  "long_request = \<lparr>br_availabilityId = Some 10, br_notes = Some (replicate 501 (CHR ''x''))\<rparr>"

text \<open>
  Student 2 books the first slot, the professor cancels that appointment (id 20), and
  student 3 books the same slot (appointment 21).
\<close>

definition rebooked :: db where
  "rebooked =
     run campus [BookSlot 2 request10 5000, CancelAppointment 1 20, BookSlot 3 request10 6000]"

text \<open>
  A state in which the confirmed appointment 20 refers to a slot (id 10) that is no
  longer in the availability store.
\<close>

definition orphaned :: db where
  "orphaned =
     campus\<lparr>availabilities := [new_availability 11 1 86400000 ''14:00'' ''15:00''],
            appointments := [new_appointment 20 2 1 10
                               (new_availability 10 1 86400000 ''10:00'' ''11:00'')
                               ''final project''],
            next_oid := 21\<rparr>"

text \<open>
  Two booking requests served by one process: each handler gives up control at its
  \<open>await\<close>s, so the second request can be read before the first one writes. The
  schedule below runs both reading parts on the same database, then the writing part of
  the first request, then that of the second.
\<close>

definition bookSlot_interleaved ::
  "db \<Rightarrow> oid \<Rightarrow> book_request \<Rightarrow> oid \<Rightarrow> book_request \<Rightarrow> int
     \<Rightarrow> appointment response \<times> appointment response \<times> db" where
  "bookSlot_interleaved d caller1 r1 caller2 r2 now =
     (let read1 = bookSlot_read d r1 now;
          read2 = bookSlot_read d r2 now;
          (answer1, d1) = (case read1 of Inl answer \<Rightarrow> (answer, d)
                           | Inr loaded \<Rightarrow> bookSlot_write d caller1 r1 loaded);
          (answer2, d2) = (case read2 of Inl answer \<Rightarrow> (answer, d1)
                           | Inr loaded \<Rightarrow> bookSlot_write d1 caller2 r2 loaded)
      in (answer1, answer2, d2))"

section \<open>Properties\<close>

lemmas handler_defs =
  bookSlot_def bookSlot_read_def bookSlot_write_def book_validators_def sanitized_notes_def
  trim_def is_space_def findAvailabilityById_def findUserById_def findOne_def
  new_availability_def new_appointment_def markBooked_def freeSlot_def setStatus_def
  cancelAppointment_def updateAppointmentStatus_def status_of_string_def run_def Let_def

subsection \<open>Booking a slot that is already booked\<close>

lemma trim_replicate:
  assumes "\<not> is_space c"
  shows "trim (replicate n c) = replicate n c"
proof -
  have "dropWhile is_space (replicate n c) = replicate n c"
    using assms by (induction n) simp_all
  then show ?thesis by (simp add: trim_def)
qed

lemma long_request_invalid:
  "book_validators long_request = [''Notes cannot exceed 500 characters'']"
proof -
  have "\<not> is_space (CHR ''x'')"
    by (simp add: is_space_def)
  then have "trim (replicate 501 (CHR ''x'')) = replicate 501 (CHR ''x'')"
    by (rule trim_replicate)
  then show ?thesis
    by (simp add: book_validators_def long_request_def)
qed

text \<open>
  Claim C2, as stated, has every BookSlot call on a booked slot fail with Conflict. The
  validators of the route run before the slot is loaded: after student 2 has booked slot
  10, a request for that slot with notes of 501 characters is answered with the
  validation errors.
\<close>

theorem bookSlot_booked_counterexample:
  "map av_isBooked (availabilities (run campus [BookSlot 2 request10 5000])) = [True, False] \<and>
   bookSlot (run campus [BookSlot 2 request10 5000]) 3 long_request 6000
     = (Invalid [''Notes cannot exceed 500 characters''],
        run campus [BookSlot 2 request10 5000])"
proof -
  have "map av_isBooked (availabilities (run campus [BookSlot 2 request10 5000])) = [True, False]"
    by (simp add: campus_def request10_def handler_defs)
  moreover have "bookSlot d 3 long_request 6000
      = (Invalid [''Notes cannot exceed 500 characters''], d)" for d
    by (simp add: bookSlot_def bookSlot_read_def long_request_invalid)
  ultimately show ?thesis by simp
qed

text \<open>
  Claim C2, amended. A BookSlot call on an existing slot whose \<open>isBooked\<close> flag is true
  fails, and the database after the call is the database before it: neither store
  changes. The answer is 400 \<open>'This time slot is already booked'\<close> when the request passes
  the route's validators, and the validation errors when it does not.
\<close>

theorem bookSlot_booked_conflict:
  assumes "br_availabilityId r = Some i"
    and "findAvailabilityById d i = Some a"
    and "av_isBooked a"
  shows "bookSlot d caller r now
           = (if book_validators r = [] then Refusal 400 ''This time slot is already booked''
              else Invalid (book_validators r),
              d)"
  using assms by (simp add: bookSlot_def bookSlot_read_def)

theorem bookSlot_booked_conflict_witness:
  "br_availabilityId request10 = Some 10 \<and> book_validators request10 = [] \<and>
   findAvailabilityById (run campus [BookSlot 2 request10 5000]) 10
     = Some ((new_availability 10 1 86400000 ''10:00'' ''11:00'')
               \<lparr>av_isBooked := True, av_bookedBy := Some 2\<rparr>) \<and>
   bookSlot (run campus [BookSlot 2 request10 5000]) 3 request10 6000
     = (Refusal 400 ''This time slot is already booked'', run campus [BookSlot 2 request10 5000])"
  using bookSlot_booked_conflict [of request10 10 "run campus [BookSlot 2 request10 5000]"
     "(new_availability 10 1 86400000 ''10:00'' ''11:00'')\<lparr>av_isBooked := True, av_bookedBy := Some 2\<rparr>"
     3 6000]
  by (simp add: campus_def request10_def handler_defs)

subsection \<open>Booking a slot of the past\<close>

lemma date_le_start_moment: "av_date a \<le> spec_start_moment a"
  by (simp add: spec_start_moment_def)

text \<open>
  Claim C3, as stated, reads the slot's date/time as date plus start time and says that a
  slot whose start moment is not in the past is not rejected by the check. The handler
  compares \<open>new Date(availability.date)\<close> alone with the current moment. At 09:00 of the
  slots' day the 10:00 slot has not started, and booking it is refused as past.
\<close>

theorem bookSlot_past_counterexample:
  "\<not> spec_start_moment (new_availability 10 1 86400000 ''10:00'' ''11:00'') < 118800000 \<and>
   bookSlot campus 2 request10 118800000 = (Refusal 400 ''Cannot book past time slots'', campus)"
  by (simp add: spec_start_moment_def digit_val_def campus_def request10_def handler_defs)

text \<open>
  Claim C3, amended. For a BookSlot call on an existing unbooked slot, the answer is 400
  \<open>'Cannot book past time slots'\<close> exactly when the request passes the route's
  validators and the slot's stored date, taken alone as a moment, is strictly before the
  current moment. Whenever that date is before the current moment the database is
  unchanged, so no appointment is created. In particular a validated call on a slot whose
  date plus start time is before the current moment is refused with that answer.
\<close>

theorem bookSlot_past_check:
  assumes "br_availabilityId r = Some i"
    and "findAvailabilityById d i = Some a"
    and "\<not> av_isBooked a"
  shows "(fst (bookSlot d caller r now) = Refusal 400 ''Cannot book past time slots'')
           = (book_validators r = [] \<and> av_date a < now)
    \<and> (av_date a < now \<longrightarrow> snd (bookSlot d caller r now) = d)
    \<and> (book_validators r = [] \<and> spec_start_moment a < now \<longrightarrow>
          bookSlot d caller r now = (Refusal 400 ''Cannot book past time slots'', d))"
proof -
  have invalid: "bookSlot d caller r now = (Invalid (book_validators r), d)"
    if "book_validators r \<noteq> []"
    using that by (simp add: bookSlot_def bookSlot_read_def)
  have past: "bookSlot d caller r now = (Refusal 400 ''Cannot book past time slots'', d)"
    if "book_validators r = []" "av_date a < now"
    using assms that by (simp add: bookSlot_def bookSlot_read_def)
  have ahead: "fst (bookSlot d caller r now) \<noteq> Refusal 400 ''Cannot book past time slots''"
    if "book_validators r = []" "\<not> av_date a < now"
    using assms that
    by (simp add: bookSlot_def bookSlot_read_def bookSlot_write_def Let_def split: option.split)
  have start: "av_date a \<le> spec_start_moment a"
    by (rule date_le_start_moment)
  show ?thesis
  proof (cases "book_validators r = []")
    case True
    with past ahead start show ?thesis by fastforce
  next
    case False
    with invalid show ?thesis by simp
  qed
qed

theorem bookSlot_past_check_witness:
  "book_validators request10 = [] \<and> br_availabilityId request10 = Some 10 \<and>
   findAvailabilityById campus 10 = Some (new_availability 10 1 86400000 ''10:00'' ''11:00'') \<and>
   spec_start_moment (new_availability 10 1 86400000 ''10:00'' ''11:00'') < 200000000 \<and>
   bookSlot campus 2 request10 200000000 = (Refusal 400 ''Cannot book past time slots'', campus)"
  using bookSlot_past_check [of request10 10 campus
     "new_availability 10 1 86400000 ''10:00'' ''11:00''" 2 200000000]
  by (simp add: spec_start_moment_def digit_val_def campus_def request10_def handler_defs)

subsection \<open>Setting the status of a cancelled appointment to cancelled\<close>

lemma find_av_id: "find (\<lambda>s. av_id s = i) xs = Some a \<Longrightarrow> av_id a = i"
  by (auto simp: find_Some_iff)

lemma freeSlot_found_or_not:
  "availabilities (case findAvailabilityById d i of
                     None \<Rightarrow> d
                   | Some availability \<Rightarrow> freeSlot (av_id availability) d)
     = availabilities (freeSlot i d)"
proof (cases "find (\<lambda>s. av_id s = i) (availabilities d)")
  case None
  then have "\<forall>s \<in> set (availabilities d). av_id s \<noteq> i"
    by (simp add: find_None_iff)
  then have "map (\<lambda>s. if av_id s = i then s\<lparr>av_isBooked := False, av_bookedBy := None\<rparr> else s)
               (availabilities d) = availabilities d"
    by (simp add: map_idI)
  with None show ?thesis
    by (simp add: findAvailabilityById_def findOne_def freeSlot_def)
next
  case (Some s)
  then have "av_id s = i" by (rule find_av_id)
  with Some show ?thesis
    by (simp add: findAvailabilityById_def findOne_def)
qed

text \<open>
  Claim C9. When the owning professor sets the status of an appointment that is already
  cancelled to \<open>'cancelled'\<close>, the status route answers 200 with the appointment and
  writes the slot the appointment refers to once more: every slot with that id is left
  with \<open>isBooked = false\<close> and no booking student. The cancel route, on the same
  appointment, answers 400 \<open>'Appointment is already cancelled'\<close> and changes nothing.
\<close>

theorem updateAppointmentStatus_recancel:
  assumes "findOne (\<lambda>x. ap_id x = i \<and> ap_professor x = caller) (appointments d) = Some a"
    and "ap_status a = Cancelled"
  shows "fst (updateAppointmentStatus d caller i ''cancelled'')
           = Reply 200 (Some ''Appointment status updated successfully'') a
    \<and> availabilities (snd (updateAppointmentStatus d caller i ''cancelled''))
           = availabilities (freeSlot (ap_availability a) d)
    \<and> cancelAppointment d caller i = (Refusal 400 ''Appointment is already cancelled'', d)"
proof -
  have same: "a\<lparr>ap_status := Cancelled\<rparr> = a"
    using assms(2) by simp
  have "availabilities (setStatus (ap_id a) Cancelled d) = availabilities d"
    by (simp add: setStatus_def)
  then have free:
    "availabilities
       (case findAvailabilityById (setStatus (ap_id a) Cancelled d) (ap_availability a) of
          None \<Rightarrow> setStatus (ap_id a) Cancelled d
        | Some availability \<Rightarrow> freeSlot (av_id availability) (setStatus (ap_id a) Cancelled d))
     = availabilities (freeSlot (ap_availability a) d)"
    using freeSlot_found_or_not [of "setStatus (ap_id a) Cancelled d" "ap_availability a"]
    by (simp add: freeSlot_def)
  show ?thesis
    using assms same free
    by (simp add: updateAppointmentStatus_def cancelAppointment_def status_of_string_def Let_def)
qed

text \<open>
  In the state \<open>rebooked\<close> the slot is held by student 3 through the confirmed
  appointment 21; cancelling the cancelled appointment 20 again frees it.
\<close>

theorem updateAppointmentStatus_recancel_witness:
  "map ap_status (appointments rebooked) = [Cancelled, Confirmed] \<and>
   map av_isBooked (availabilities rebooked) = [True, False] \<and>
   is_success (fst (updateAppointmentStatus rebooked 1 20 ''cancelled'')) \<and>
   map av_isBooked (availabilities (snd (updateAppointmentStatus rebooked 1 20 ''cancelled'')))
     = [False, False] \<and>
   cancelAppointment rebooked 1 20 = (Refusal 400 ''Appointment is already cancelled'', rebooked)"
  using updateAppointmentStatus_recancel [of 20 1 rebooked
     "(new_appointment 20 2 1 10 (new_availability 10 1 86400000 ''10:00'' ''11:00'')
         ''final project'')\<lparr>ap_status := Cancelled\<rparr>"]
  by (simp add: rebooked_def campus_def request10_def handler_defs)

subsection \<open>Listing a professor's open slots\<close>

lemmas list_defs =
  listAvailableSlots_def available_query_def sort_slots_def findUserById_def findOne_def
  new_availability_def

text \<open>
  Claim C4, as stated, lists the slots dated today or later and keeps that restriction
  when a date filter is given. The query compares the slot's date with the current
  moment, and a date filter replaces that comparison. At 09:00 of the slots' day the
  unfiltered listing is empty although both slots are dated today; ten days later the
  listing filtered to the slots' date still returns both.
\<close>

theorem listAvailableSlots_counterexample:
  "listAvailableSlots campus (Some 1) NoDate 118800000 = Reply 200 None [] \<and>
   filter (spec_available 1 NoDate 118800000) (availabilities campus) = availabilities campus \<and>
   listAvailableSlots campus (Some 1) (QueryDate 86400000) 864000000
     = Reply 200 None (availabilities campus) \<and>
   filter (spec_available 1 (QueryDate 86400000) 864000000) (availabilities campus) = []"
  by (simp add: campus_def list_defs spec_available_def spec_start_of_day_def)

text \<open>
  A professor id that is not an ObjectId does not resolve to any user either; the answer
  is then 500, not 404.
\<close>

lemma listAvailableSlots_malformed_id:
  "listAvailableSlots d None qd now = Refusal 500 ''Error fetching professor availability''"
  by (simp add: listAvailableSlots_def)

text \<open>
  Claim C4, amended. When the professor id is an ObjectId that does not resolve to a user
  with role professor the answer is 404. When it resolves to a professor then, without a
  date filter, the answer lists exactly the professor's slots with \<open>isBooked = false\<close>
  whose date is not before the current moment; with a date filter that is not before the
  current moment, exactly the professor's slots with \<open>isBooked = false\<close> on that date.
  Both lists are ordered by date, then start time.
\<close>

theorem listAvailableSlots_result:
  "((\<forall>u. findUserById d p = Some u \<longrightarrow> user_role u \<noteq> Professor) \<longrightarrow>
      listAvailableSlots d (Some p) qd now = Refusal 404 ''Professor not found'')
   \<and> (findUserById d p = Some u \<and> user_role u = Professor \<longrightarrow>
        (\<exists>xs. listAvailableSlots d (Some p) NoDate now = Reply 200 None xs
           \<and> sorted (map (\<lambda>s. (av_date s, av_startTime s)) xs)
           \<and> mset xs = mset (filter (\<lambda>s. av_professor s = p \<and> \<not> av_isBooked s \<and> now \<le> av_date s)
                               (availabilities d))))
   \<and> (findUserById d p = Some u \<and> user_role u = Professor \<and> now \<le> t \<longrightarrow>
        (\<exists>xs. listAvailableSlots d (Some p) (QueryDate t) now = Reply 200 None xs
           \<and> sorted (map (\<lambda>s. (av_date s, av_startTime s)) xs)
           \<and> mset xs = mset (filter (\<lambda>s. av_professor s = p \<and> \<not> av_isBooked s \<and> av_date s = t
                                          \<and> now \<le> av_date s)
                               (availabilities d))))"
proof (intro conjI impI)
  assume "\<forall>u. findUserById d p = Some u \<longrightarrow> user_role u \<noteq> Professor"
  then show "listAvailableSlots d (Some p) qd now = Refusal 404 ''Professor not found''"
    by (auto simp: listAvailableSlots_def split: option.split)
next
  assume "findUserById d p = Some u \<and> user_role u = Professor"
  then show "\<exists>xs. listAvailableSlots d (Some p) NoDate now = Reply 200 None xs
      \<and> sorted (map (\<lambda>s. (av_date s, av_startTime s)) xs)
      \<and> mset xs = mset (filter (\<lambda>s. av_professor s = p \<and> \<not> av_isBooked s \<and> now \<le> av_date s)
                          (availabilities d))"
    by (simp add: listAvailableSlots_def available_query_def sort_slots_def)
next
  assume a: "findUserById d p = Some u \<and> user_role u = Professor \<and> now \<le> t"
  then have "filter (available_query p (QueryDate t) now) (availabilities d)
      = filter (\<lambda>s. av_professor s = p \<and> \<not> av_isBooked s \<and> av_date s = t \<and> now \<le> av_date s)
          (availabilities d)"
    by (auto simp: available_query_def intro: filter_cong)
  with a show "\<exists>xs. listAvailableSlots d (Some p) (QueryDate t) now = Reply 200 None xs
      \<and> sorted (map (\<lambda>s. (av_date s, av_startTime s)) xs)
      \<and> mset xs = mset (filter (\<lambda>s. av_professor s = p \<and> \<not> av_isBooked s \<and> av_date s = t
                                     \<and> now \<le> av_date s)
                          (availabilities d))"
    by (simp add: listAvailableSlots_def sort_slots_def)
qed

theorem listAvailableSlots_result_witness:
  "findUserById campus 1 = Some \<lparr>user_id = 1, user_role = Professor\<rparr> \<and>
   listAvailableSlots campus (Some 1) NoDate 5000 = Reply 200 None (availabilities campus) \<and>
   listAvailableSlots campus (Some 1) (QueryDate 86400000) 5000
     = Reply 200 None (availabilities campus) \<and>
   listAvailableSlots campus (Some 2) NoDate 5000 = Refusal 404 ''Professor not found''"
  using listAvailableSlots_result [of campus 1 NoDate 5000
          "\<lparr>user_id = 1, user_role = Professor\<rparr>" 86400000]
     listAvailableSlots_result [of campus 2 NoDate 5000]
  by (simp add: campus_def list_defs)

subsection \<open>Creating a slot: the format and the order of the times\<close>

lemmas create_defs = createSlot_def slot_validators_def availability_pre_save_def create_catch_def
  findOne_def new_availability_def digit_val_def is_0_9_def is_0_5_def is_0_3_def is_0_1_def
  Let_def

lemma digit_cases:
  "is_0_9 c \<Longrightarrow> c = CHR ''0'' \<or> c = CHR ''1'' \<or> c = CHR ''2'' \<or> c = CHR ''3'' \<or> c = CHR ''4''
     \<or> c = CHR ''5'' \<or> c = CHR ''6'' \<or> c = CHR ''7'' \<or> c = CHR ''8'' \<or> c = CHR ''9''"
  by (auto simp: is_0_9_def)

lemma digit_val_le: "is_0_9 c \<Longrightarrow> digit_val c \<le> 9"
  by (auto simp: digit_val_def dest!: digit_cases)

lemma is_0_5_iff: "is_0_5 c \<longleftrightarrow> is_0_9 c \<and> digit_val c \<le> 5"
  by (auto simp: is_0_5_def is_0_9_def digit_val_def)

lemma is_0_3_iff: "is_0_3 c \<longleftrightarrow> is_0_9 c \<and> digit_val c \<le> 3"
  by (auto simp: is_0_3_def is_0_9_def digit_val_def)

lemma is_0_1_iff: "is_0_1 c \<longleftrightarrow> is_0_9 c \<and> digit_val c \<le> 1"
  by (auto simp: is_0_1_def is_0_9_def digit_val_def)

lemma two_iff: "c = CHR ''2'' \<longleftrightarrow> is_0_9 c \<and> digit_val c = 2"
  by (auto simp: is_0_9_def digit_val_def)

lemma minute_iff:
  "is_0_5 m1 \<and> is_0_9 m2 \<longleftrightarrow> is_0_9 m1 \<and> is_0_9 m2 \<and> digit_val m1 * 10 + digit_val m2 \<le> 59"
  using digit_val_le [of m2] by (auto simp: is_0_5_iff)

lemma hour_iff:
  "(is_0_1 h1 \<and> is_0_9 h2) \<or> (h1 = CHR ''2'' \<and> is_0_3 h2)
     \<longleftrightarrow> is_0_9 h1 \<and> is_0_9 h2 \<and> digit_val h1 * 10 + digit_val h2 \<le> 23"
  using digit_val_le [of h2] by (auto simp: is_0_1_iff is_0_3_iff two_iff)

lemma matches_time_iff: "matches_time s \<longleftrightarrow> spec_HH_MM s \<or> spec_H_MM s"
proof (induction s rule: matches_time.induct)
  case (1 h c m1 m2)
  show ?case using minute_iff [of m1 m2] by (auto simp: spec_HH_MM_def spec_H_MM_def)
next
  case (2 h1 h2 c m1 m2)
  show ?case using minute_iff [of m1 m2] hour_iff [of h1 h2]
    by (auto simp: spec_HH_MM_def spec_H_MM_def)
qed (simp_all add: spec_HH_MM_def spec_H_MM_def)

text \<open>
  Claim C5, as stated, has every start or end time that is not of the form \<open>HH:MM\<close>
  (hour 00 to 23, minute 00 to 59) rejected. The regular expression makes the first digit
  of the hour optional: \<open>9:00\<close> is not of that form, and a slot from \<open>9:00\<close> to
  \<open>9:30\<close> is created. (The end follows the start both as a time of day and as a
  string, so the outcome does not depend on how the model compares them.)
\<close>

theorem createSlot_format_counterexample:
  "\<not> spec_HH_MM ''9:00'' \<and>
   createSlot campus 1 \<lparr>sr_date = ValidDate 86400000, sr_startTime = ''9:00'', sr_endTime = ''9:30''\<rparr>
     = (Reply 201 (Some ''Availability slot created successfully'')
          (new_availability 20 1 86400000 ''9:00'' ''9:30''),
        campus\<lparr>availabilities := availabilities campus @ [new_availability 20 1 86400000 ''9:00'' ''9:30''],
               next_oid := 21\<rparr>)"
  by (simp add: spec_HH_MM_def campus_def create_defs)

lemma catch_end_time:
  "create_catch ''End time must be after start time'' = Refusal 400 ''End time must be after start time''"
  by (simp add: create_catch_def)

text \<open>
  Claim C5, amended. The validator accepts exactly the strings of the form \<open>HH:MM\<close> or
  \<open>H:MM\<close> (hour 0 to 23 with the leading zero optional, minute 00 to 59). A request
  whose start or end time is not accepted is answered with the validation errors, and a
  request that passes the validators but whose end time is not strictly after its start
  time, compared as times of day, is refused (with 400 when its date can be read); the
  database is unchanged in both cases. The comparison of the two times is the one of
  \<open>availability_pre_save\<close>.
\<close>

theorem createSlot_rejects_times:
  "(matches_time s \<longleftrightarrow> spec_HH_MM s \<or> spec_H_MM s)
   \<and> (\<not> matches_time (sr_startTime r) \<or> \<not> matches_time (sr_endTime r) \<longrightarrow>
        slot_validators r \<noteq> [] \<and> createSlot d caller r = (Invalid (slot_validators r), d))
   \<and> (slot_validators r = [] \<and> time_of_day (sr_endTime r) \<le> time_of_day (sr_startTime r) \<longrightarrow>
        \<not> is_success (fst (createSlot d caller r)) \<and> snd (createSlot d caller r) = d)
   \<and> (slot_validators r = [] \<and> sr_date r = ValidDate t
        \<and> time_of_day (sr_endTime r) \<le> time_of_day (sr_startTime r) \<longrightarrow>
        (\<exists>msg. createSlot d caller r = (Refusal 400 msg, d)))"
proof (intro conjI impI)
  show "matches_time s \<longleftrightarrow> spec_HH_MM s \<or> spec_H_MM s"
    by (rule matches_time_iff)
next
  assume "\<not> matches_time (sr_startTime r) \<or> \<not> matches_time (sr_endTime r)"
  then have "slot_validators r \<noteq> []"
    by (auto simp: slot_validators_def)
  then show "slot_validators r \<noteq> []" and "createSlot d caller r = (Invalid (slot_validators r), d)"
    by (simp_all add: createSlot_def)
next
  assume a: "slot_validators r = [] \<and> sr_date r = ValidDate t
        \<and> time_of_day (sr_endTime r) \<le> time_of_day (sr_startTime r)"
  then have "availability_pre_save (new_availability (next_oid d) caller t (sr_startTime r) (sr_endTime r))
      = Some ''End time must be after start time''"
    by (simp add: availability_pre_save_def new_availability_def)
  with a show "\<exists>msg. createSlot d caller r = (Refusal 400 msg, d)"
    by (simp add: createSlot_def catch_end_time Let_def split: option.split)
next
  assume a: "slot_validators r = [] \<and> time_of_day (sr_endTime r) \<le> time_of_day (sr_startTime r)"
  have save: "availability_pre_save (new_availability i caller t (sr_startTime r) (sr_endTime r))
      = Some ''End time must be after start time''" for i t
    using a by (simp add: availability_pre_save_def new_availability_def)
  have cast: "create_catch ''Cast to date failed'' = Refusal 500 ''Error creating availability slot''"
    by (simp add: create_catch_def)
  from a save cast
  have "\<not> is_success (fst (createSlot d caller r)) \<and> snd (createSlot d caller r) = d"
    by (cases "sr_date r")
       (simp_all add: createSlot_def catch_end_time Let_def split: option.split)
  then show "\<not> is_success (fst (createSlot d caller r))" and "snd (createSlot d caller r) = d"
    by simp_all
qed

theorem createSlot_rejects_times_witness:
  "matches_time ''9:00'' \<and> spec_H_MM ''9:00'' \<and> \<not> matches_time ''24:00'' \<and>
   createSlot campus 1 \<lparr>sr_date = ValidDate 86400000, sr_startTime = ''24:00'', sr_endTime = ''10:60''\<rparr>
     = (Invalid [''Start time must be in HH:MM format'', ''End time must be in HH:MM format''], campus) \<and>
   createSlot campus 1 \<lparr>sr_date = ValidDate 86400000, sr_startTime = ''12:00'', sr_endTime = ''12:00''\<rparr>
     = (Refusal 400 ''End time must be after start time'', campus)"
  using createSlot_rejects_times [of "''9:00''"
      "\<lparr>sr_date = ValidDate 86400000, sr_startTime = ''24:00'', sr_endTime = ''10:60''\<rparr>" campus 1 0]
    createSlot_rejects_times [of "''9:00''"
      "\<lparr>sr_date = ValidDate 86400000, sr_startTime = ''12:00'', sr_endTime = ''12:00''\<rparr>" campus 1 86400000]
  by (simp add: spec_H_MM_def campus_def create_defs)

subsection \<open>Creating a slot: duplicates\<close>

text \<open>
  Claim C6. For a valid CreateSlot call (the validators pass, the date is read, the end
  time is after the start time): when a slot with the same professor, date, start time
  and end time exists, the answer is 400 \<open>'This time slot already exists'\<close> and the
  database is unchanged; otherwise the answer is 201 with a new slot that has
  \<open>isBooked = false\<close> and no booking student, and that slot is appended to the store.
\<close>

theorem createSlot_duplicate_or_new:
  assumes "slot_validators r = []"
    and "sr_date r = ValidDate t"
    and "time_of_day (sr_startTime r) < time_of_day (sr_endTime r)"
  shows "((\<exists>s \<in> set (availabilities d). av_professor s = caller \<and> av_date s = t
             \<and> av_startTime s = sr_startTime r \<and> av_endTime s = sr_endTime r) \<longrightarrow>
            createSlot d caller r = (Refusal 400 ''This time slot already exists'', d))
    \<and> (\<not> (\<exists>s \<in> set (availabilities d). av_professor s = caller \<and> av_date s = t
             \<and> av_startTime s = sr_startTime r \<and> av_endTime s = sr_endTime r) \<longrightarrow>
            createSlot d caller r
              = (Reply 201 (Some ''Availability slot created successfully'')
                   \<lparr>av_id = next_oid d, av_professor = caller, av_date = t,
                    av_startTime = sr_startTime r, av_endTime = sr_endTime r,
                    av_isBooked = False, av_bookedBy = None\<rparr>,
                 d\<lparr>availabilities := availabilities d @
                      [\<lparr>av_id = next_oid d, av_professor = caller, av_date = t,
                        av_startTime = sr_startTime r, av_endTime = sr_endTime r,
                        av_isBooked = False, av_bookedBy = None\<rparr>],
                    next_oid := Suc (next_oid d)\<rparr>))"
proof (intro conjI impI)
  assume "\<exists>s \<in> set (availabilities d). av_professor s = caller \<and> av_date s = t
             \<and> av_startTime s = sr_startTime r \<and> av_endTime s = sr_endTime r"
  then have "find (\<lambda>s. av_professor s = caller \<and> av_date s = t
             \<and> av_startTime s = sr_startTime r \<and> av_endTime s = sr_endTime r) (availabilities d) \<noteq> None"
    by (auto simp: find_None_iff)
  with assms show "createSlot d caller r = (Refusal 400 ''This time slot already exists'', d)"
    by (auto simp: createSlot_def findOne_def)
next
  assume "\<not> (\<exists>s \<in> set (availabilities d). av_professor s = caller \<and> av_date s = t
             \<and> av_startTime s = sr_startTime r \<and> av_endTime s = sr_endTime r)"
  then have "find (\<lambda>s. av_professor s = caller \<and> av_date s = t
             \<and> av_startTime s = sr_startTime r \<and> av_endTime s = sr_endTime r) (availabilities d) = None"
    by (simp add: find_None_iff)
  with assms show "createSlot d caller r
              = (Reply 201 (Some ''Availability slot created successfully'')
                   \<lparr>av_id = next_oid d, av_professor = caller, av_date = t,
                    av_startTime = sr_startTime r, av_endTime = sr_endTime r,
                    av_isBooked = False, av_bookedBy = None\<rparr>,
                 d\<lparr>availabilities := availabilities d @
                      [\<lparr>av_id = next_oid d, av_professor = caller, av_date = t,
                        av_startTime = sr_startTime r, av_endTime = sr_endTime r,
                        av_isBooked = False, av_bookedBy = None\<rparr>],
                    next_oid := Suc (next_oid d)\<rparr>)"
    by (simp add: createSlot_def findOne_def availability_pre_save_def new_availability_def Let_def)
qed

theorem createSlot_duplicate_or_new_witness:
  "createSlot campus 1 \<lparr>sr_date = ValidDate 86400000, sr_startTime = ''10:00'', sr_endTime = ''11:00''\<rparr>
     = (Refusal 400 ''This time slot already exists'', campus) \<and>
   createSlot campus 1 \<lparr>sr_date = ValidDate 86400000, sr_startTime = ''12:00'', sr_endTime = ''13:00''\<rparr>
     = (Reply 201 (Some ''Availability slot created successfully'')
          (new_availability 20 1 86400000 ''12:00'' ''13:00''),
        campus\<lparr>availabilities := availabilities campus @ [new_availability 20 1 86400000 ''12:00'' ''13:00''],
               next_oid := 21\<rparr>)"
  using createSlot_duplicate_or_new [of
      "\<lparr>sr_date = ValidDate 86400000, sr_startTime = ''10:00'', sr_endTime = ''11:00''\<rparr>" 86400000 campus 1]
    createSlot_duplicate_or_new [of
      "\<lparr>sr_date = ValidDate 86400000, sr_startTime = ''12:00'', sr_endTime = ''13:00''\<rparr>" 86400000 campus 1]
  by (simp add: campus_def create_defs)

text \<open>
  Claim C10. The duplicate check compares the four fields for equality and nothing else:
  a valid new slot that overlaps an existing slot of the same professor on the same date
  is created and persisted, provided no existing slot equals it in all four fields.
\<close>

theorem createSlot_overlap_accepted:
  assumes "slot_validators r = []"
    and "sr_date r = ValidDate t"
    and "time_of_day (sr_startTime r) < time_of_day (sr_endTime r)"
    and "s \<in> set (availabilities d)"
    and "av_professor s = caller" and "av_date s = t"
    and "time_of_day (av_startTime s) < time_of_day (sr_endTime r)"
    and "time_of_day (sr_startTime r) < time_of_day (av_endTime s)"
    and "\<forall>x \<in> set (availabilities d). \<not> (av_professor x = caller \<and> av_date x = t
             \<and> av_startTime x = sr_startTime r \<and> av_endTime x = sr_endTime r)"
  shows "is_success (fst (createSlot d caller r))
    \<and> availabilities (snd (createSlot d caller r))
        = availabilities d @ [new_availability (next_oid d) caller t (sr_startTime r) (sr_endTime r)]"
proof -
  from assms(9) have "find (\<lambda>s. av_professor s = caller \<and> av_date s = t
             \<and> av_startTime s = sr_startTime r \<and> av_endTime s = sr_endTime r) (availabilities d) = None"
    by (simp add: find_None_iff)
  with assms(1-3) show ?thesis
    by (simp add: createSlot_def findOne_def availability_pre_save_def new_availability_def Let_def)
qed

theorem createSlot_overlap_accepted_witness:
  "new_availability 10 1 86400000 ''10:00'' ''11:00'' \<in> set (availabilities campus) \<and>
   time_of_day ''10:00'' < time_of_day ''11:30'' \<and> time_of_day ''10:30'' < time_of_day ''11:00'' \<and>
   is_success (fst (createSlot campus 1
      \<lparr>sr_date = ValidDate 86400000, sr_startTime = ''10:30'', sr_endTime = ''11:30''\<rparr>)) \<and>
   availabilities (snd (createSlot campus 1
      \<lparr>sr_date = ValidDate 86400000, sr_startTime = ''10:30'', sr_endTime = ''11:30''\<rparr>))
     = availabilities campus @ [new_availability 20 1 86400000 ''10:30'' ''11:30'']"
  using createSlot_overlap_accepted [of
      "\<lparr>sr_date = ValidDate 86400000, sr_startTime = ''10:30'', sr_endTime = ''11:30''\<rparr>" 86400000
      "new_availability 10 1 86400000 ''10:00'' ''11:00''" campus 1]
  by (simp add: campus_def create_defs)

subsection \<open>Cancelling an appointment whose slot is gone\<close>

text \<open>
  The state \<open>orphaned\<close> is reached through the routes: book, cancel, set the status back
  to confirmed, delete the (free) slot.
\<close>

lemma orphaned_reached:
  "snd (deleteSlot (run campus [BookSlot 2 request10 5000, CancelAppointment 1 20,
                                UpdateAppointmentStatus 1 20 ''confirmed'']) 1 10) = orphaned"
  by (simp add: orphaned_def deleteSlot_def campus_def request10_def handler_defs)

text \<open>
  Claim C7 at the state \<open>orphaned\<close>: the professor cancels the confirmed appointment 20,
  whose slot no longer exists. The cancel route saves the status \<open>cancelled\<close> and then
  fails reading \<open>appointment.availability._id\<close> of the populated null: the answer is
  500 \<open>'Error cancelling appointment'\<close>. The status route, given \<open>'cancelled'\<close> for the same
  appointment, succeeds.
\<close>

theorem cancelAppointment_missing_slot:
  "findAvailabilityById orphaned 10 = None \<and>
   map ap_status (appointments orphaned) = [Confirmed] \<and>
   fst (cancelAppointment orphaned 1 20) = Refusal 500 ''Error cancelling appointment'' \<and>
   map ap_status (appointments (snd (cancelAppointment orphaned 1 20))) = [Cancelled] \<and>
   is_success (fst (updateAppointmentStatus orphaned 1 20 ''cancelled''))"
  by (simp add: orphaned_def campus_def handler_defs)

text \<open>
  What the cancel route does on every other input: it refuses an appointment that is
  already cancelled and changes nothing, and when the slot exists it marks the
  appointment cancelled and frees the slot.
\<close>

lemma cancelAppointment_already_cancelled:
  assumes "findOne (\<lambda>x. ap_id x = i \<and> ap_professor x = caller) (appointments d) = Some a"
    and "ap_status a = Cancelled"
  shows "cancelAppointment d caller i = (Refusal 400 ''Appointment is already cancelled'', d)"
  using assms by (simp add: cancelAppointment_def)

lemma cancelAppointment_slot_present:
  assumes "findOne (\<lambda>x. ap_id x = i \<and> ap_professor x = caller) (appointments d) = Some a"
    and "ap_status a \<noteq> Cancelled"
    and "findAvailabilityById d (ap_availability a) = Some s"
  shows "cancelAppointment d caller i
           = (Reply 200 (Some ''Appointment cancelled successfully'') (a\<lparr>ap_status := Cancelled\<rparr>),
              freeSlot (ap_availability a) (setStatus (ap_id a) Cancelled d))"
proof -
  from assms(3) have "find (\<lambda>s. av_id s = ap_availability a) (availabilities d) = Some s"
    by (simp add: findAvailabilityById_def findOne_def)
  then have "av_id s = ap_availability a"
    by (rule find_av_id)
  moreover have "availabilities (setStatus (ap_id a) Cancelled d) = availabilities d"
    by (simp add: setStatus_def)
  ultimately show ?thesis
    using assms by (simp add: cancelAppointment_def Let_def findAvailabilityById_def)
qed

lemma cancelAppointment_slot_missing:
  assumes "findOne (\<lambda>x. ap_id x = i \<and> ap_professor x = caller) (appointments d) = Some a"
    and "ap_status a \<noteq> Cancelled"
    and "findAvailabilityById d (ap_availability a) = None"
  shows "cancelAppointment d caller i
           = (Refusal 500 ''Error cancelling appointment'', setStatus (ap_id a) Cancelled d)"
  using assms by (simp add: cancelAppointment_def Let_def)

subsection \<open>Two bookings of one slot\<close>

lemma find_map_same_id:
  assumes "\<And>s. av_id (f s) = av_id s"
  shows "find (\<lambda>s. av_id s = i) (map (\<lambda>s. if av_id s = i then f s else s) xs)
           = map_option f (find (\<lambda>s. av_id s = i) xs)"
  using assms by (induction xs) auto

lemma bookSlot_read_Inr:
  assumes "bookSlot_read d r now = Inr (i, a, p)"
  shows "book_validators r = [] \<and> br_availabilityId r = Some i \<and> findAvailabilityById d i = Some a
    \<and> \<not> av_isBooked a \<and> \<not> av_date a < now \<and> p = findUserById d (av_professor a)"
proof (cases "book_validators r = []")
  case False
  with assms show ?thesis by (simp add: bookSlot_read_def)
next
  case True
  note v = this
  show ?thesis
  proof (cases "br_availabilityId r")
    case None
    with assms v show ?thesis by (simp add: bookSlot_read_def)
  next
    case (Some j)
    note j = this
    show ?thesis
    proof (cases "findAvailabilityById d j")
      case None
      with assms v j show ?thesis by (simp add: bookSlot_read_def)
    next
      case (Some b)
      with assms v j show ?thesis
        by (simp add: bookSlot_read_def split: if_splits) blast
    qed
  qed
qed

lemma bookSlot_success:
  assumes "is_success (fst (bookSlot d caller r now))"
  shows "\<exists>i a p. br_availabilityId r = Some i \<and> findAvailabilityById d i = Some a
    \<and> \<not> av_isBooked a
    \<and> bookSlot d caller r now = bookSlot_write d caller r (i, a, Some p)"
proof (cases "bookSlot_read d r now")
  case (Inl answer)
  then have "\<not> is_success answer"
    by (auto simp: bookSlot_read_def split: if_splits option.splits)
  with Inl assms show ?thesis by (simp add: bookSlot_def)
next
  case (Inr loaded)
  obtain i a p where l: "loaded = (i, a, p)" by (cases loaded) auto
  from Inr l have facts: "br_availabilityId r = Some i" "findAvailabilityById d i = Some a"
    "\<not> av_isBooked a"
    using bookSlot_read_Inr [of d r now i a p] by simp_all
  from assms Inr l obtain u where "p = Some u"
    by (cases p) (simp_all add: bookSlot_def bookSlot_write_def)
  with Inr l have "bookSlot d caller r now = bookSlot_write d caller r (i, a, Some u)"
    by (simp add: bookSlot_def)
  with facts show ?thesis by blast
qed

text \<open>
  Claim C8, as stated, has exactly one of two concurrent BookSlot calls on an open slot
  succeed, the write being conditioned on \<open>isBooked\<close> at write time. The handler saves
  the slot unconditionally. When both requests are read before either writes, both are
  answered 201 and two confirmed appointments refer to the slot.
\<close>

theorem bookSlot_race_counterexample:
  "is_success (fst (bookSlot_interleaved campus 2 request10 3 request10 5000)) \<and>
   is_success (fst (snd (bookSlot_interleaved campus 2 request10 3 request10 5000))) \<and>
   map (\<lambda>a. (ap_student a, ap_availability a, ap_status a))
       (appointments (snd (snd (bookSlot_interleaved campus 2 request10 3 request10 5000))))
     = [(2, 10, Confirmed), (3, 10, Confirmed)]"
  by (simp add: bookSlot_interleaved_def campus_def request10_def handler_defs)

text \<open>
  Claim C8, amended. When two BookSlot calls on the same slot run one after the other
  and the first succeeds, the second fails and changes nothing: exactly one succeeds. The
  second is answered 400 \<open>'This time slot is already booked'\<close> when it passes the
  route's validators, and the validation errors when it does not. The writing part of the
  handler does not look at the database it writes to: given a loaded slot and professor,
  it succeeds on every database.
\<close>

theorem bookSlot_twice:
  assumes "is_success (fst (bookSlot d caller1 r1 now1))"
    and "br_availabilityId r2 = br_availabilityId r1"
  shows "bookSlot (snd (bookSlot d caller1 r1 now1)) caller2 r2 now2
           = (if book_validators r2 = [] then Refusal 400 ''This time slot is already booked''
              else Invalid (book_validators r2),
              snd (bookSlot d caller1 r1 now1))
    \<and> is_success (fst (bookSlot_write d' caller2 r2 (j, b, Some q)))"
proof -
  have unconditional: "is_success (fst (bookSlot_write d' caller2 r2 (j, b, Some q)))"
    by (simp add: bookSlot_write_def Let_def)
  from bookSlot_success [OF assms(1)] obtain i a p where i: "br_availabilityId r1 = Some i"
    and a: "findAvailabilityById d i = Some a"
    and w: "bookSlot d caller1 r1 now1 = bookSlot_write d caller1 r1 (i, a, Some p)"
    by blast
  define e where "e = snd (bookSlot d caller1 r1 now1)"
  from a have "find (\<lambda>s. av_id s = i) (availabilities d) = Some a"
    by (simp add: findAvailabilityById_def findOne_def)
  then have id: "av_id a = i"
    by (rule find_av_id)
  have "availabilities e
     = map (\<lambda>s. if av_id s = i then s\<lparr>av_isBooked := True, av_bookedBy := Some caller1\<rparr> else s)
         (availabilities d)"
    unfolding e_def w using id by (simp add: bookSlot_write_def markBooked_def Let_def)
  then have found: "findAvailabilityById e i
          = Some (a\<lparr>av_isBooked := True, av_bookedBy := Some caller1\<rparr>)"
    using a
    by (simp add: findAvailabilityById_def findOne_def
          find_map_same_id [where f = "\<lambda>s. s\<lparr>av_isBooked := True, av_bookedBy := Some caller1\<rparr>"])
  have "br_availabilityId r2 = Some i"
    using assms(2) i by simp
  with found
  have "bookSlot e caller2 r2 now2
          = (if book_validators r2 = [] then Refusal 400 ''This time slot is already booked''
             else Invalid (book_validators r2),
             e)"
    by (simp add: bookSlot_def bookSlot_read_def)
  with unconditional show ?thesis by (simp only: e_def)
qed

theorem bookSlot_twice_witness:
  "is_success (fst (bookSlot campus 2 request10 5000)) \<and>
   br_availabilityId request10 = Some 10 \<and> book_validators request10 = [] \<and>
   bookSlot (snd (bookSlot campus 2 request10 5000)) 3 request10 6000
     = (Refusal 400 ''This time slot is already booked'', snd (bookSlot campus 2 request10 5000))"
  using bookSlot_twice [of campus 2 request10 5000 request10 3 6000]
  by (simp add: campus_def request10_def handler_defs)


subsection \<open>The relationship invariant along booking and cancelling\<close>

lemma consistent_engaged:
  "consistent d = (\<forall>s \<in> set (availabilities d). av_isBooked s = engaged d (av_id s))"
  by (simp add: consistent_def slot_consistent_def engaged_def)

lemma setStatus_fields [simp]:
  "availabilities (setStatus k st d) = availabilities d"
  "next_oid (setStatus k st d) = next_oid d"
  "map ap_id (appointments (setStatus k st d)) = map ap_id (appointments d)"
  by (simp_all add: setStatus_def comp_def)

lemma freeSlot_fields [simp]:
  "appointments (freeSlot v d) = appointments d"
  "next_oid (freeSlot v d) = next_oid d"
  by (simp_all add: freeSlot_def)

lemma markBooked_fields [simp]:
  "appointments (markBooked v c d) = appointments d"
  "next_oid (markBooked v c d) = next_oid d"
  by (simp_all add: markBooked_def)

lemma engaged_freeSlot [simp]: "engaged (freeSlot v d) w = engaged d w"
  by (simp add: engaged_def)

lemma engaged_markBooked [simp]: "engaged (markBooked v c d) w = engaged d w"
  by (simp add: engaged_def)

lemma same_id_same_appointment:
  assumes "distinct (map ap_id xs)" and "x \<in> set xs" and "y \<in> set xs" and "ap_id x = ap_id y"
  shows "x = y"
  using assms by (meson distinct_map inj_onD)

lemma bex_set_map: "(\<exists>y \<in> set (map f xs). P y) = (\<exists>x \<in> set xs. P (f x))"
  by auto

lemma engaged_setStatus:
  "engaged (setStatus k st d) v
     = (\<exists>x \<in> set (appointments d).
          ap_availability x = v \<and> (if ap_id x = k then st \<noteq> Cancelled else live x))"
proof -
  let ?upd = "\<lambda>x. if ap_id x = k then x\<lparr>ap_status := st\<rparr> else x"
  have "appointments (setStatus k st d) = map ?upd (appointments d)"
    by (simp add: setStatus_def)
  then have "engaged (setStatus k st d) v
      = (\<exists>x \<in> set (appointments d). ap_availability (?upd x) = v \<and> live (?upd x))"
    by (simp only: engaged_def bex_set_map)
  also have "\<dots> = (\<exists>x \<in> set (appointments d).
          ap_availability x = v \<and> (if ap_id x = k then st \<noteq> Cancelled else live x))"
    by (intro bex_cong refl) (simp add: live_def)
  finally show ?thesis .
qed

lemma engaged_cancel:
  assumes "fresh_ids d" and "single_booking d" and "a \<in> set (appointments d)" and "live a"
  shows "engaged (setStatus (ap_id a) Cancelled d) v = (engaged d v \<and> v \<noteq> ap_availability a)"
proof
  assume "engaged (setStatus (ap_id a) Cancelled d) v"
  then obtain x where x: "x \<in> set (appointments d)" "ap_availability x = v"
      "ap_id x \<noteq> ap_id a" "live x"
    unfolding engaged_setStatus by (auto split: if_splits)
  from x(1,2,4) have "engaged d v"
    unfolding engaged_def by blast
  moreover have "v \<noteq> ap_availability a"
  proof
    assume "v = ap_availability a"
    with assms(2,3,4) x(1,2,4) have "ap_id x = ap_id a"
      unfolding single_booking_def by blast
    with x(3) show False by simp
  qed
  ultimately show "engaged d v \<and> v \<noteq> ap_availability a" by simp
next
  assume r: "engaged d v \<and> v \<noteq> ap_availability a"
  then obtain x where x: "x \<in> set (appointments d)" "ap_availability x = v" "live x"
    unfolding engaged_def by blast
  have "ap_id x \<noteq> ap_id a"
  proof
    assume same: "ap_id x = ap_id a"
    from assms(1) have "distinct (map ap_id (appointments d))"
      by (simp add: fresh_ids_def)
    from this x(1) assms(3) same have "x = a"
      by (rule same_id_same_appointment)
    with r x(2) show False by simp
  qed
  with x show "engaged (setStatus (ap_id a) Cancelled d) v"
    unfolding engaged_setStatus by auto
qed

lemma engaged_relabel:
  assumes "fresh_ids d" and "a \<in> set (appointments d)" and "live a" and "st \<noteq> Cancelled"
  shows "engaged (setStatus (ap_id a) st d) v = engaged d v"
proof
  assume "engaged (setStatus (ap_id a) st d) v"
  then obtain x where x: "x \<in> set (appointments d)" "ap_availability x = v"
      "if ap_id x = ap_id a then st \<noteq> Cancelled else live x"
    unfolding engaged_setStatus by blast
  show "engaged d v"
  proof (cases "ap_id x = ap_id a")
    case True
    from assms(1) have "distinct (map ap_id (appointments d))"
      by (simp add: fresh_ids_def)
    from this x(1) assms(2) True have "x = a"
      by (rule same_id_same_appointment)
    with assms(2,3) x(2) show ?thesis
      unfolding engaged_def by blast
  next
    case False
    with x show ?thesis unfolding engaged_def by auto
  qed
next
  assume "engaged d v"
  then obtain x where x: "x \<in> set (appointments d)" "ap_availability x = v" "live x"
    unfolding engaged_def by blast
  with assms(4) show "engaged (setStatus (ap_id a) st d) v"
    unfolding engaged_setStatus by auto
qed

lemma ball_set_map: "(\<forall>y \<in> set (map f xs). P y) = (\<forall>x \<in> set xs. P (f x))"
  by auto

lemma find_SomeD: "find P xs = Some x \<Longrightarrow> x \<in> set xs \<and> P x"
  by (induction xs) (auto split: if_splits)

lemma fresh_ids_setStatus: "fresh_ids (setStatus k st d) = fresh_ids d"
  by (simp only: fresh_ids_def setStatus_fields)

lemma fresh_ids_freeSlot: "fresh_ids (freeSlot v d) = fresh_ids d"
  by (simp only: fresh_ids_def freeSlot_fields)

lemma single_booking_freeSlot: "single_booking (freeSlot v d) = single_booking d"
  by (simp only: single_booking_def freeSlot_fields)

lemma single_booking_cancel:
  assumes "single_booking d"
  shows "single_booking (setStatus k Cancelled d)"
proof -
  let ?upd = "\<lambda>x. if ap_id x = k then x\<lparr>ap_status := Cancelled\<rparr> else x"
  have upd: "live (?upd x) \<Longrightarrow> ?upd x = x \<and> live x" for x
    by (simp add: live_def split: if_splits)
  have "appointments (setStatus k Cancelled d) = map ?upd (appointments d)"
    by (simp add: setStatus_def)
  moreover have "\<forall>x \<in> set (appointments d). \<forall>y \<in> set (appointments d).
      live (?upd x) \<and> live (?upd y) \<and> ap_availability (?upd x) = ap_availability (?upd y)
        \<longrightarrow> ap_id (?upd x) = ap_id (?upd y)"
  proof (intro ballI impI)
    fix x y
    assume x: "x \<in> set (appointments d)" and y: "y \<in> set (appointments d)"
      and l: "live (?upd x) \<and> live (?upd y) \<and> ap_availability (?upd x) = ap_availability (?upd y)"
    from l upd [of x] upd [of y] have "?upd x = x" "?upd y = y" "live x" "live y"
      by blast+
    with l x y assms show "ap_id (?upd x) = ap_id (?upd y)"
      unfolding single_booking_def by metis
  qed
  ultimately show ?thesis
    by (simp only: single_booking_def ball_set_map)
qed

lemma relabel_keeps:
  assumes "fresh_ids d" and "a \<in> set (appointments d)" and "live a" and "st \<noteq> Cancelled"
    and "x \<in> set (appointments d)"
  shows "live (if ap_id x = ap_id a then x\<lparr>ap_status := st\<rparr> else x) = live x"
proof (cases "ap_id x = ap_id a")
  case True
  from assms(1) have "distinct (map ap_id (appointments d))"
    by (simp add: fresh_ids_def)
  from this assms(5,2) True have "x = a"
    by (rule same_id_same_appointment)
  with assms(3,4) show ?thesis by (simp add: live_def)
next
  case False
  then show ?thesis by simp
qed

lemma single_booking_relabel:
  assumes "fresh_ids d" and "a \<in> set (appointments d)" and "live a" and "st \<noteq> Cancelled"
    and "single_booking d"
  shows "single_booking (setStatus (ap_id a) st d)"
proof -
  let ?upd = "\<lambda>x. if ap_id x = ap_id a then x\<lparr>ap_status := st\<rparr> else x"
  have same: "ap_availability (?upd x) = ap_availability x \<and> ap_id (?upd x) = ap_id x" for x
    by simp
  have "appointments (setStatus (ap_id a) st d) = map ?upd (appointments d)"
    by (simp add: setStatus_def)
  moreover have "\<forall>x \<in> set (appointments d). \<forall>y \<in> set (appointments d).
      live (?upd x) \<and> live (?upd y) \<and> ap_availability (?upd x) = ap_availability (?upd y)
        \<longrightarrow> ap_id (?upd x) = ap_id (?upd y)"
  proof (intro ballI impI)
    fix x y
    assume x: "x \<in> set (appointments d)" and y: "y \<in> set (appointments d)"
      and l: "live (?upd x) \<and> live (?upd y) \<and> ap_availability (?upd x) = ap_availability (?upd y)"
    have "live (?upd x) = live x"
      by (rule relabel_keeps [OF assms(1-4) x])
    moreover have "live (?upd y) = live y"
      by (rule relabel_keeps [OF assms(1-4) y])
    ultimately have "live (?upd x) = live x" "live (?upd y) = live y"
      by blast+
    with l same [of x] same [of y] have "live x \<and> live y \<and> ap_availability x = ap_availability y"
      by metis
    with x y assms(5) have "ap_id x = ap_id y"
      unfolding single_booking_def by blast
    with same [of x] same [of y] show "ap_id (?upd x) = ap_id (?upd y)"
      by metis
  qed
  ultimately show ?thesis
    by (simp only: single_booking_def ball_set_map)
qed

lemma consistent_cancel:
  assumes "fresh_ids d" and "single_booking d" and "consistent d"
    and "a \<in> set (appointments d)" and "live a"
  shows "consistent (freeSlot (ap_availability a) (setStatus (ap_id a) Cancelled d))"
proof -
  let ?v = "ap_availability a"
  let ?free = "\<lambda>s. if av_id s = ?v then s\<lparr>av_isBooked := False, av_bookedBy := None\<rparr> else s"
  let ?d' = "freeSlot ?v (setStatus (ap_id a) Cancelled d)"
  have slots: "availabilities ?d' = map ?free (availabilities d)"
    by (simp add: freeSlot_def)
  have "\<forall>s \<in> set (availabilities d). av_isBooked (?free s) = engaged ?d' (av_id (?free s))"
  proof
    fix s
    assume "s \<in> set (availabilities d)"
    with assms(3) have "av_isBooked s = engaged d (av_id s)"
      by (simp add: consistent_engaged)
    then show "av_isBooked (?free s) = engaged ?d' (av_id (?free s))"
      by (simp add: engaged_cancel [OF assms(1,2,4,5)])
  qed
  then show ?thesis
    by (simp only: consistent_engaged slots ball_set_map)
qed

lemma consistent_relabel:
  assumes "fresh_ids d" and "consistent d"
    and "a \<in> set (appointments d)" and "live a" and "st \<noteq> Cancelled"
  shows "consistent (setStatus (ap_id a) st d)"
  using assms by (simp add: consistent_engaged engaged_relabel)

lemma freeSlot_absent:
  assumes "findAvailabilityById d v = None"
  shows "freeSlot v d = d"
proof -
  from assms have "\<forall>s \<in> set (availabilities d). av_id s \<noteq> v"
    by (simp add: findAvailabilityById_def findOne_def find_None_iff)
  then have "map (\<lambda>s. if av_id s = v then s\<lparr>av_isBooked := False, av_bookedBy := None\<rparr> else s)
               (availabilities d) = availabilities d"
    by (simp add: map_idI)
  then show ?thesis by (simp add: freeSlot_def)
qed

lemma freeSlot_case:
  "(case findAvailabilityById d v of None \<Rightarrow> d | Some s \<Rightarrow> freeSlot (av_id s) d) = freeSlot v d"
proof (cases "findAvailabilityById d v")
  case None
  then show ?thesis by (simp add: freeSlot_absent)
next
  case (Some s)
  then have "find (\<lambda>s. av_id s = v) (availabilities d) = Some s"
    by (simp add: findAvailabilityById_def findOne_def)
  then have "av_id s = v" by (rule find_av_id)
  with Some show ?thesis by simp
qed

lemma invariant_book:
  assumes "invariant d"
    and "find (\<lambda>s. av_id s = i) (availabilities d) = Some a"
    and "\<not> av_isBooked a"
  shows "invariant (markBooked i c
            (d\<lparr>appointments := appointments d @ [new_appointment (next_oid d) c q i a n],
               next_oid := Suc (next_oid d)\<rparr>))"
proof -
  let ?new = "new_appointment (next_oid d) c q i a n"
  let ?d1 = "d\<lparr>appointments := appointments d @ [?new], next_oid := Suc (next_oid d)\<rparr>"
  let ?mark = "\<lambda>s. if av_id s = i then s\<lparr>av_isBooked := True, av_bookedBy := Some c\<rparr> else s"
  from assms(1) have fresh: "fresh_ids d" and single: "single_booking d" and cons: "consistent d"
    by (simp_all add: invariant_def)
  have new: "ap_id ?new = next_oid d" "ap_availability ?new = i" "live ?new"
    by (simp_all add: new_appointment_def live_def)
  from assms(2) have "a \<in> set (availabilities d)" "av_id a = i"
    using find_SomeD [of "\<lambda>s. av_id s = i" "availabilities d" a] by simp_all
  with cons assms(3) have free: "\<not> engaged d i"
    by (auto simp: consistent_engaged)
  have eng: "engaged ?d1 w = (engaged d w \<or> w = i)" for w
  proof -
    have "engaged ?d1 w = (engaged d w \<or> (ap_availability ?new = w \<and> live ?new))"
      by (auto simp: engaged_def)
    with new(2,3) show ?thesis by metis
  qed
  have "fresh_ids (markBooked i c ?d1)"
  proof -
    have ids: "map ap_id (appointments (markBooked i c ?d1))
                 = map ap_id (appointments d) @ [next_oid d]"
      using new(1) by simp
    have nxt: "next_oid (markBooked i c ?d1) = Suc (next_oid d)"
      by simp
    from fresh have dist: "distinct (map ap_id (appointments d))"
      and small: "\<forall>k \<in> set (map ap_id (appointments d)). k < next_oid d"
      unfolding fresh_ids_def by blast+
    from small have "next_oid d \<notin> set (map ap_id (appointments d))"
      by (meson less_irrefl)
    with dist have "distinct (map ap_id (appointments d) @ [next_oid d])"
      by simp
    moreover from small
    have "\<forall>k \<in> set (map ap_id (appointments d) @ [next_oid d]). k < Suc (next_oid d)"
      by (simp add: less_Suc_eq)
    ultimately show ?thesis
      by (simp only: fresh_ids_def ids nxt)
  qed
  moreover have "single_booking (markBooked i c ?d1)"
  proof -
    have old: "ap_id x = ap_id y"
      if "x \<in> set (appointments d)" "y \<in> set (appointments d)"
        "live x" "live y" "ap_availability x = ap_availability y" for x y
      using single that unfolding single_booking_def by blast
    have none: "\<not> (z \<in> set (appointments d) \<and> live z \<and> ap_availability z = i)" for z
      using free unfolding engaged_def by blast
    have "ap_id x = ap_id y"
      if x: "x \<in> set (appointments d) \<or> x = ?new" and y: "y \<in> set (appointments d) \<or> y = ?new"
        and l: "live x" "live y" and e: "ap_availability x = ap_availability y" for x y
    proof (cases "x = ?new")
      case True
      note xn = this
      show ?thesis
      proof (cases "y = ?new")
        case True
        with xn show ?thesis by simp
      next
        case False
        with y have "y \<in> set (appointments d)" by blast
        moreover from e xn new(2) have "ap_availability y = i" by simp
        ultimately show ?thesis using l(2) none [of y] by blast
      qed
    next
      case False
      with x have xin: "x \<in> set (appointments d)" by blast
      show ?thesis
      proof (cases "y = ?new")
        case True
        with e new(2) have "ap_availability x = i" by simp
        with xin l(1) none [of x] show ?thesis by blast
      next
        case False
        with y have "y \<in> set (appointments d)" by blast
        with xin l e show ?thesis by (blast intro: old)
      qed
    qed
    moreover have "set (appointments (markBooked i c ?d1)) = insert ?new (set (appointments d))"
      by simp
    ultimately show ?thesis
      unfolding single_booking_def by blast
  qed
  moreover have "consistent (markBooked i c ?d1)"
  proof -
    have slots: "availabilities (markBooked i c ?d1) = map ?mark (availabilities d)"
      by (simp add: markBooked_def)
    have "\<forall>s \<in> set (availabilities d).
            av_isBooked (?mark s) = engaged (markBooked i c ?d1) (av_id (?mark s))"
    proof
      fix s
      assume "s \<in> set (availabilities d)"
      with cons have "av_isBooked s = engaged d (av_id s)"
        by (simp add: consistent_engaged)
      then show "av_isBooked (?mark s) = engaged (markBooked i c ?d1) (av_id (?mark s))"
        by (simp add: eng)
    qed
    then show ?thesis
      by (simp only: consistent_engaged slots ball_set_map)
  qed
  ultimately show ?thesis by (simp add: invariant_def)
qed

lemma invariant_cancel:
  assumes "invariant d" and "a \<in> set (appointments d)" and "live a"
  shows "invariant (freeSlot (ap_availability a) (setStatus (ap_id a) Cancelled d))"
  using assms
  by (simp add: invariant_def fresh_ids_freeSlot fresh_ids_setStatus single_booking_freeSlot
        single_booking_cancel consistent_cancel)

lemma invariant_relabel:
  assumes "invariant d" and "a \<in> set (appointments d)" and "live a" and "st \<noteq> Cancelled"
  shows "invariant (setStatus (ap_id a) st d)"
  using assms
  by (simp add: invariant_def fresh_ids_setStatus single_booking_relabel consistent_relabel)

lemma bookSlot_db:
  "snd (bookSlot d c r now) = d \<or>
   (\<exists>i a q. find (\<lambda>s. av_id s = i) (availabilities d) = Some a \<and> \<not> av_isBooked a
      \<and> snd (bookSlot d c r now)
          = markBooked i c
              (d\<lparr>appointments := appointments d
                    @ [new_appointment (next_oid d) c q i a (sanitized_notes r)],
                 next_oid := Suc (next_oid d)\<rparr>))"
proof (cases "bookSlot_read d r now")
  case (Inl answer)
  then show ?thesis by (simp add: bookSlot_def)
next
  case (Inr loaded)
  obtain i a p where l: "loaded = (i, a, p)" by (cases loaded) auto
  from Inr l have "findAvailabilityById d i = Some a" and free: "\<not> av_isBooked a"
    using bookSlot_read_Inr [of d r now i a p] by simp_all
  then have found: "find (\<lambda>s. av_id s = i) (availabilities d) = Some a"
    by (simp add: findAvailabilityById_def findOne_def)
  then have id: "av_id a = i" by (rule find_av_id)
  show ?thesis
  proof (cases p)
    case None
    with Inr l show ?thesis by (simp add: bookSlot_def bookSlot_write_def)
  next
    case (Some u)
    with Inr l id have "snd (bookSlot d c r now)
          = markBooked i c
              (d\<lparr>appointments := appointments d
                    @ [new_appointment (next_oid d) c (user_id u) i a (sanitized_notes r)],
                 next_oid := Suc (next_oid d)\<rparr>)"
      by (simp add: bookSlot_def bookSlot_write_def Let_def)
    with found free show ?thesis by blast
  qed
qed

lemma cancelAppointment_db:
  "snd (cancelAppointment d c i) = d \<or>
   (\<exists>a. a \<in> set (appointments d) \<and> live a
      \<and> snd (cancelAppointment d c i)
          = freeSlot (ap_availability a) (setStatus (ap_id a) Cancelled d))"
proof (cases "findOne (\<lambda>x. ap_id x = i \<and> ap_professor x = c) (appointments d)")
  case None
  then show ?thesis by (simp add: cancelAppointment_def)
next
  case (Some a)
  then have mem: "a \<in> set (appointments d)"
    using find_SomeD [of "\<lambda>x. ap_id x = i \<and> ap_professor x = c" "appointments d" a]
    by (simp add: findOne_def)
  show ?thesis
  proof (cases "ap_status a = Cancelled")
    case True
    with Some show ?thesis by (simp add: cancelAppointment_def)
  next
    case False
    then have l: "live a" by (simp add: live_def)
    have "snd (cancelAppointment d c i)
            = freeSlot (ap_availability a) (setStatus (ap_id a) Cancelled d)"
    proof (cases "findAvailabilityById d (ap_availability a)")
      case None
      then have "findAvailabilityById (setStatus (ap_id a) Cancelled d) (ap_availability a) = None"
        by (simp add: findAvailabilityById_def)
      then have "freeSlot (ap_availability a) (setStatus (ap_id a) Cancelled d)
                   = setStatus (ap_id a) Cancelled d"
        by (rule freeSlot_absent)
      with Some False None show ?thesis
        by (simp add: cancelAppointment_slot_missing)
    next
      case (Some s)
      with \<open>findOne (\<lambda>x. ap_id x = i \<and> ap_professor x = c) (appointments d) = Some a\<close> False
      show ?thesis by (simp add: cancelAppointment_slot_present)
    qed
    with mem l show ?thesis by blast
  qed
qed

lemma updateAppointmentStatus_db:
  assumes "spares_cancelled d (UpdateAppointmentStatus c i s)"
  shows "snd (updateAppointmentStatus d c i s) = d \<or>
   (\<exists>a. a \<in> set (appointments d) \<and> live a
      \<and> (snd (updateAppointmentStatus d c i s)
            = freeSlot (ap_availability a) (setStatus (ap_id a) Cancelled d)
          \<or> (\<exists>st. st \<noteq> Cancelled
                \<and> snd (updateAppointmentStatus d c i s) = setStatus (ap_id a) st d)))"
proof (cases "status_of_string s")
  case None
  then show ?thesis by (simp add: updateAppointmentStatus_def)
next
  case (Some st)
  note st = this
  show ?thesis
  proof (cases "findOne (\<lambda>x. ap_id x = i \<and> ap_professor x = c) (appointments d)")
    case None
    with st show ?thesis by (simp add: updateAppointmentStatus_def)
  next
    case (Some a)
    then have mem: "a \<in> set (appointments d)"
      using find_SomeD [of "\<lambda>x. ap_id x = i \<and> ap_professor x = c" "appointments d" a]
      by (simp add: findOne_def)
    from assms Some have l: "live a"
      by (simp add: spares_cancelled_def)
    show ?thesis
    proof (cases "st = Cancelled")
      case True
      with st Some have "snd (updateAppointmentStatus d c i s)
            = freeSlot (ap_availability a) (setStatus (ap_id a) Cancelled d)"
        by (simp add: updateAppointmentStatus_def Let_def freeSlot_case)
      with mem l show ?thesis by blast
    next
      case False
      with st Some have "snd (updateAppointmentStatus d c i s) = setStatus (ap_id a) st d"
        by (simp add: updateAppointmentStatus_def Let_def)
      with mem l False show ?thesis by blast
    qed
  qed
qed

lemma invariant_perform:
  assumes "invariant d" and "spares_cancelled d c"
  shows "invariant (perform d c)"
proof (cases c)
  case (BookSlot caller r now)
  with assms(1) bookSlot_db [of d caller r now] show ?thesis
    by (auto simp: invariant_book)
next
  case (CancelAppointment caller i)
  with assms(1) cancelAppointment_db [of d caller i] show ?thesis
    by (auto simp: invariant_cancel)
next
  case (UpdateAppointmentStatus caller i s)
  with assms updateAppointmentStatus_db [of d caller i s] show ?thesis
    by (auto simp: invariant_cancel invariant_relabel)
qed

lemma invariant_run:
  assumes "invariant d" and "admissible d cs"
  shows "invariant (run d cs)"
  using assms
proof (induction cs arbitrary: d)
  case Nil
  then show ?case by (simp add: run_def)
next
  case (Cons c cs)
  from Cons.prems have "invariant (perform d c)" and "admissible (perform d c) cs"
    by (simp_all add: invariant_perform)
  then have "invariant (run (perform d c) cs)"
    by (rule Cons.IH)
  then show ?case by (simp add: run_def)
qed

text \<open>
  Every call that spares cancelled appointments keeps the invariant, and so does every
  admissible sequence of calls. Sequences of bookings and cancellations are admissible:
  started from a database without appointments and with every slot free, they end in a
  consistent database.
\<close>

lemma admissible_book_cancel:
  assumes "\<forall>c \<in> set cs. is_book_or_cancel c"
  shows "admissible d cs"
  using assms
proof (induction cs arbitrary: d)
  case Nil
  show ?case by simp
next
  case (Cons c cs)
  then have "spares_cancelled d c"
    by (cases c) (simp_all add: spares_cancelled_def)
  with Cons show ?case by simp
qed

lemma invariant_unbooked:
  assumes "appointments d = []" and "\<forall>s \<in> set (availabilities d). \<not> av_isBooked s"
  shows "invariant d"
  using assms
  by (simp add: invariant_def fresh_ids_def single_booking_def consistent_engaged engaged_def)

lemma book_cancel_consistent:
  assumes "appointments d = []" and "\<forall>s \<in> set (availabilities d). \<not> av_isBooked s"
    and "\<forall>c \<in> set cs. is_book_or_cancel c"
  shows "consistent (run d cs)"
proof -
  from assms(1,2) have "invariant d" by (rule invariant_unbooked)
  moreover from assms(3) have "admissible d cs" by (rule admissible_book_cancel)
  ultimately have "invariant (run d cs)" by (rule invariant_run)
  then show ?thesis by (simp add: invariant_def)
qed


subsection \<open>The relationship invariant and the status route\<close>

text \<open>
  Claim C1 states the relationship invariant for every sequence of BookSlot,
  CancelAppointment and UpdateAppointmentStatus calls. At the sequence: student 2 books
  slot 10, the professor cancels the appointment, the professor sets its status to
  \<open>'confirmed'\<close>, the routes end with slot 10 at \<open>isBooked = false\<close> while
  appointment 20, which refers to it, is confirmed.
\<close>

theorem status_route_breaks_invariant:
  "map (\<lambda>s. (av_id s, av_isBooked s))
       (availabilities (run campus [BookSlot 2 request10 5000, CancelAppointment 1 20,
                                    UpdateAppointmentStatus 1 20 ''confirmed'']))
     = [(10, False), (11, False)] \<and>
   map (\<lambda>a. (ap_availability a, ap_status a))
       (appointments (run campus [BookSlot 2 request10 5000, CancelAppointment 1 20,
                                  UpdateAppointmentStatus 1 20 ''confirmed'']))
     = [(10, Confirmed)]"
  by (simp add: campus_def request10_def handler_defs)

text \<open>
  The same in terms of \<open>consistent\<close>; and the second way in which the status route
  leaves the invariant: cancelling once more an appointment whose slot has been booked
  again.
\<close>

lemma status_route_inconsistent:
  "consistent campus \<and>
   \<not> consistent (run campus [BookSlot 2 request10 5000, CancelAppointment 1 20,
                                    UpdateAppointmentStatus 1 20 ''confirmed''])"
  by (simp add: consistent_def slot_consistent_def live_def campus_def request10_def handler_defs)

lemma recancel_inconsistent:
  "consistent rebooked \<and>
   \<not> consistent (run rebooked [UpdateAppointmentStatus 1 20 ''cancelled''])"
  by (simp add: consistent_def slot_consistent_def live_def rebooked_def campus_def
        request10_def handler_defs)


end
